theory Spec2Isabelle
  imports Complex_Main
begin

section \<open>Common data\<close>

text \<open>
  Python floats and Blender vector components are modelled as real numbers: rounding,
  infinities and NaN are outside the model. A \<open>mathutils.Vector\<close> of size three is a
  record of its components.
\<close>

record Vector =
  vx :: real
  vy :: real
  vz :: real

text \<open>
  The exceptions that the modelled code can raise. \<open>TransportError\<close> stands for any
  exception of the websocket connection or of the JSON parser.
\<close>

datatype error =
    ZeroDivisionError
  | IndexError
  | ValueError
  | TypeError
  | AttributeError
  | TransportError
  | RuntimeError string

section \<open>Terrain cut (fix\_terrain\_cut.py)\<close>

text \<open>
  The module constants \<open>GOLF_CENTER\<close>, \<open>GOLF_HIGH\<close>, \<open>GOLF_LOW\<close>, \<open>CUT_RX\<close>,
  \<open>CUT_RY\<close>, \<open>CUT_Z_HIGH\<close> and \<open>CUT_Z_LOW\<close> are the fields of a record, so that
  properties can be stated for every value of them; \<open>golf_constants\<close> holds the values
  of the source file.
\<close>

record cut_constants =
  GOLF_CENTER :: "real \<times> real"
  GOLF_HIGH :: "real \<times> real"
  GOLF_LOW :: "real \<times> real"
  CUT_RX :: real
  CUT_RY :: real
  CUT_Z_HIGH :: real
  CUT_Z_LOW :: real

definition golf_constants :: cut_constants where
  "golf_constants =
     \<lparr> GOLF_CENTER = (20.85, 38.5), GOLF_HIGH = (21.7, 37.0), GOLF_LOW = (20.0, 40.0),
       CUT_RX = 6.5, CUT_RY = 7.5, CUT_Z_HIGH = 0.90, CUT_Z_LOW = 0.10 \<rparr>"

text \<open>\<open>slope_direction\<close>: the two divisions raise when the two ends coincide.\<close>

definition slope_direction :: "cut_constants \<Rightarrow> error + (real \<times> real \<times> real)" where
  "slope_direction c =
     (let dx = fst (GOLF_LOW c) - fst (GOLF_HIGH c);
          dy = snd (GOLF_LOW c) - snd (GOLF_HIGH c);
          len = sqrt (dx * dx + dy * dy)
      in if len = 0 then Inl ZeroDivisionError else Inr (dx / len, dy / len, len))"

definition smoothstep :: "real \<Rightarrow> real" where
  "smoothstep t0 = (let t = max 0 (min 1 t0) in t * t * (3 - 2 * t))"

text \<open>
  The body of the loop of \<open>cut_mesh\<close> for one vertex. The result is the vertex after the
  iteration and whether \<open>modified\<close> was incremented.
\<close>

definition cut_vertex :: "cut_constants \<Rightarrow> real \<times> real \<times> real \<Rightarrow> Vector \<Rightarrow> error + (Vector \<times> bool)" where
  "cut_vertex c sl v =
     (case sl of (slope_dx, slope_dy, slope_len) \<Rightarrow>
      let cx = fst (GOLF_CENTER c); cy = snd (GOLF_CENTER c) in
      if CUT_RX c = 0 then Inl ZeroDivisionError else
      let ex = (vx v - cx) / CUT_RX c in
      if CUT_RY c = 0 then Inl ZeroDivisionError else
      let ey = (vy v - cy) / CUT_RY c;
          dist = sqrt (ex * ex + ey * ey) in
      if dist \<ge> 1 then Inr (v, False) else
      let px = vx v - fst (GOLF_HIGH c);
          py = vy v - snd (GOLF_HIGH c) in
      if slope_len = 0 then Inl ZeroDivisionError else
      let t_slope0 = (px * slope_dx + py * slope_dy) / slope_len;
          t_slope = max 0 (min 1 t_slope0);
          target_z = CUT_Z_HIGH c + t_slope * (CUT_Z_LOW c - CUT_Z_HIGH c);
          blend = (if dist < 0.55 then 1 else 1 - smoothstep ((dist - 0.55) / 0.45));
          new_z = vz v * (1 - blend) + target_z * blend
      in if new_z < vz v then Inr (v\<lparr>vz := new_z\<rparr>, True) else Inr (v, False))"

text \<open>The loop over the vertices; an exception in one iteration ends the loop.\<close>

fun cut_loop :: "cut_constants \<Rightarrow> real \<times> real \<times> real \<Rightarrow> Vector list \<Rightarrow> error + (Vector list \<times> nat)" where
  "cut_loop c sl [] = Inr ([], 0)"
| "cut_loop c sl (v # vs) =
     (case cut_vertex c sl v of
        Inl e \<Rightarrow> Inl e
      | Inr (v', m) \<Rightarrow>
          (case cut_loop c sl vs of
             Inl e \<Rightarrow> Inl e
           | Inr (vs', n) \<Rightarrow> Inr (v' # vs', (if m then 1 else 0) + n)))"

text \<open>
  \<open>cut_mesh\<close> on the vertices of \<open>obj.data\<close>: the vertices written back by \<open>to_mesh\<close>
  and the returned count, or the exception raised.
\<close>

definition cut_mesh :: "cut_constants \<Rightarrow> Vector list \<Rightarrow> error + (Vector list \<times> nat)" where
  "cut_mesh c verts =
     (case slope_direction c of
        Inl e \<Rightarrow> Inl e
      | Inr sl \<Rightarrow> cut_loop c sl verts)"

text \<open>
  The vertices of \<open>obj.data\<close> after the call. The loop works on a \<open>bmesh\<close> copy that
  is written back only by \<open>to_mesh\<close> after the loop, so a call that raises leaves the
  mesh as it was.
\<close>

definition mesh_after_cut :: "cut_constants \<Rightarrow> Vector list \<Rightarrow> Vector list" where
  "mesh_after_cut c verts =
     (case cut_mesh c verts of Inl e \<Rightarrow> verts | Inr (verts', n) \<Rightarrow> verts')"

text \<open>
  The normalized elliptical distance of a vertex from the cut center, as the properties
  below name it: \<open>sqrt(((x - cx) / rx)^2 + ((y - cy) / ry)^2)\<close>. It is the value
  \<open>dist\<close> of the loop whenever the loop computes one.
\<close>

definition ellipse_dist :: "cut_constants \<Rightarrow> Vector \<Rightarrow> real" where
  "ellipse_dist c v =
     sqrt (((vx v - fst (GOLF_CENTER c)) / CUT_RX c)\<^sup>2 + ((vy v - snd (GOLF_CENTER c)) / CUT_RY c)\<^sup>2)"

section \<open>Spline and ribbon geometry (hole\_builder\_utils.py)\<close>

text \<open>
  \<open>catmull_rom\<close> for a single component. The parameter \<open>alpha\<close> of the source is never
  read and is left out.
\<close>

definition catmull_rom :: "real \<Rightarrow> real \<Rightarrow> real \<Rightarrow> real \<Rightarrow> real \<Rightarrow> real" where
  "catmull_rom p0 p1 p2 p3 t =
     (let t2 = t * t; t3 = t2 * t in
      0.5 * ((2.0 * p1) +
             (- p0 + p2) * t +
             (2.0 * p0 - 5.0 * p1 + 4.0 * p2 - p3) * t2 +
             (- p0 + 3.0 * p1 - 3.0 * p2 + p3) * t3))"

text \<open>The point appended in the inner loop of \<open>catmull_rom_chain\<close> for span \<open>i\<close> at \<open>t\<close>.\<close>

definition chain_point :: "Vector list \<Rightarrow> nat \<Rightarrow> real \<Rightarrow> Vector" where
  "chain_point pts i t =
     \<lparr> vx = catmull_rom (vx (pts ! (i - 1))) (vx (pts ! i)) (vx (pts ! (i + 1))) (vx (pts ! (i + 2))) t,
       vy = catmull_rom (vy (pts ! (i - 1))) (vy (pts ! i)) (vy (pts ! (i + 1))) (vy (pts ! (i + 2))) t,
       vz = catmull_rom (vz (pts ! (i - 1))) (vz (pts ! i)) (vz (pts ! (i + 1))) (vz (pts ! (i + 2))) t \<rparr>"

text \<open>
  \<open>catmull_rom_chain\<close>. \<open>segments_per_span\<close> is a Python integer; \<open>range\<close> of a
  number that is not positive is empty, so the division \<open>s / segments_per_span\<close> is only
  reached with a positive divisor. All indices are in range: \<open>pts\<close> has two more elements
  than \<open>points\<close> and \<open>i\<close> runs from 1 to \<open>len(pts) - 3\<close>.
\<close>

definition catmull_rom_chain :: "Vector list \<Rightarrow> int \<Rightarrow> Vector list" where
  "catmull_rom_chain points segments_per_span =
     (if length points < 2 then points
      else
        let pts = [hd points] @ points @ [last points];
            result = concat (map (\<lambda>i.
                        map (\<lambda>s. chain_point pts i (real s / real_of_int segments_per_span))
                          [0 ..< nat segments_per_span])
                      [1 ..< length pts - 2])
        in result @ [pts ! (length pts - 2)])"

text \<open>Vector arithmetic of \<open>mathutils\<close>, as far as \<open>build_path_mesh\<close> uses it.\<close>

definition vsub :: "Vector \<Rightarrow> Vector \<Rightarrow> Vector" where
  "vsub a b = \<lparr> vx = vx a - vx b, vy = vy a - vy b, vz = vz a - vz b \<rparr>"

definition vadd :: "Vector \<Rightarrow> Vector \<Rightarrow> Vector" where
  "vadd a b = \<lparr> vx = vx a + vx b, vy = vy a + vy b, vz = vz a + vz b \<rparr>"

definition vscale :: "Vector \<Rightarrow> real \<Rightarrow> Vector" where
  "vscale a k = \<lparr> vx = vx a * k, vy = vy a * k, vz = vz a * k \<rparr>"

text \<open>\<open>Vector.normalized()\<close>: a vector of length zero is returned as it is.\<close>

definition normalized :: "Vector \<Rightarrow> Vector" where
  "normalized a =
     (let len = sqrt (vx a * vx a + vy a * vy a + vz a * vz a)
      in if len = 0 then a else vscale a (1 / len))"

text \<open>
  A \<open>bmesh\<close>: the vertices in creation order and the faces, each face the list of its
  vertices. A vertex handle (\<open>BMVert\<close>) is the position of the vertex in \<open>bm_verts\<close>,
  so two vertices with equal coordinates are still two vertices.
\<close>

record bmesh =
  bm_verts :: "Vector list"
  bm_faces :: "nat list list"

definition bmesh_new :: bmesh where
  "bmesh_new = \<lparr> bm_verts = [], bm_faces = [] \<rparr>"

definition bm_verts_new :: "bmesh \<Rightarrow> Vector \<Rightarrow> bmesh \<times> nat" where
  "bm_verts_new bm co = (bm\<lparr>bm_verts := bm_verts bm @ [co]\<rparr>, length (bm_verts bm))"

text \<open>
  \<open>bm.faces.new\<close> raises \<open>ValueError\<close> when a vertex is given twice and when a face on
  the same vertices exists already; fewer than three vertices are a \<open>TypeError\<close>.
\<close>

definition bm_faces_new :: "bmesh \<Rightarrow> nat list \<Rightarrow> error + bmesh" where
  "bm_faces_new bm vs =
     (if length vs < 3 then Inl TypeError
      else if \<not> distinct vs then Inl ValueError
      else if list_ex (\<lambda>f. set f = set vs) (bm_faces bm) then Inl ValueError
      else Inr (bm\<lparr>bm_faces := bm_faces bm @ [vs]\<rparr>))"

text \<open>The tangent chosen in the first loop of \<open>build_path_mesh\<close> at index \<open>i\<close>.\<close>

definition path_tangent :: "Vector list \<Rightarrow> nat \<Rightarrow> error + Vector" where
  "path_tangent centerline i =
     (if i = 0 then
        (if length centerline < 2 then Inl IndexError
         else Inr (normalized (vsub (centerline ! 1) (centerline ! 0))))
      else if i = length centerline - 1 then
        (if length centerline < 2 then Inl IndexError
         else Inr (normalized (vsub (last centerline) (centerline ! (length centerline - 2)))))
      else
        (if length centerline \<le> i + 1 then Inl IndexError
         else Inr (normalized (vsub (centerline ! (i + 1)) (centerline ! (i - 1))))))"

text \<open>
  The first loop of \<open>build_path_mesh\<close> over the indices still to visit; the state is the
  \<open>bmesh\<close> with the lists \<open>verts_left\<close> and \<open>verts_right\<close>.
\<close>

fun path_verts_loop ::
  "Vector list \<Rightarrow> real \<Rightarrow> nat list \<Rightarrow> bmesh \<times> nat list \<times> nat list \<Rightarrow> error + (bmesh \<times> nat list \<times> nat list)" where
  "path_verts_loop centerline half_w [] st = Inr st"
| "path_verts_loop centerline half_w (i # is) (bm, verts_left, verts_right) =
     (case path_tangent centerline i of
        Inl e \<Rightarrow> Inl e
      | Inr tangent \<Rightarrow>
          let pt = centerline ! i;
              perp = normalized \<lparr> vx = - vy tangent, vy = vx tangent, vz = 0 \<rparr>;
              left = (vadd pt (vscale perp half_w))\<lparr>vz := vz pt\<rparr>;
              right = (vsub pt (vscale perp half_w))\<lparr>vz := vz pt\<rparr>;
              (bm1, vl) = bm_verts_new bm left;
              (bm2, vr) = bm_verts_new bm1 right
          in path_verts_loop centerline half_w is (bm2, verts_left @ [vl], verts_right @ [vr]))"

text \<open>
  The second loop: one \<open>bm.faces.new\<close> per index, a \<open>ValueError\<close> is caught and the
  face skipped, any other exception leaves the function.
\<close>

fun path_faces_loop :: "nat list \<Rightarrow> nat list \<Rightarrow> nat list \<Rightarrow> bmesh \<Rightarrow> error + bmesh" where
  "path_faces_loop verts_left verts_right [] bm = Inr bm"
| "path_faces_loop verts_left verts_right (i # is) bm =
     (case bm_faces_new bm
             [verts_left ! i, verts_right ! i, verts_right ! (i + 1), verts_left ! (i + 1)] of
        Inl ValueError \<Rightarrow> path_faces_loop verts_left verts_right is bm
      | Inl e \<Rightarrow> Inl e
      | Inr bm' \<Rightarrow> path_faces_loop verts_left verts_right is bm')"

text \<open>
  \<open>build_path_mesh\<close>: the mesh written to \<open>obj.data\<close> by \<open>to_mesh\<close>, or the
  exception. The UV layer does not change vertices or faces and is not modelled.
\<close>

definition build_path_mesh :: "Vector list \<Rightarrow> real \<Rightarrow> error + bmesh" where
  "build_path_mesh centerline width =
     (let bm = bmesh_new; half_w = width / 2.0 in
      case path_verts_loop centerline half_w [0 ..< length centerline] (bm, [], []) of
        Inl e \<Rightarrow> Inl e
      | Inr (bm1, verts_left, verts_right) \<Rightarrow>
          path_faces_loop verts_left verts_right [0 ..< length centerline - 1] bm1)"

section \<open>The scene: materials, collections, objects (bpy.data)\<close>

text \<open>
  The data-blocks of the host application are kept by name. Each of \<open>bpy.data.materials\<close>,
  \<open>bpy.data.collections\<close>, \<open>bpy.data.objects\<close> and \<open>bpy.data.meshes\<close> is a list of
  named entries; a reference to a data-block is its name. The calls into the host are
  modelled by their effect on names and links and are taken to succeed: names are stored as
  requested, and the failures of the host itself are outside the model. Exceptions raised
  by the scripts themselves are results of the model.
\<close>

type_synonym rgba = "real \<times> real \<times> real \<times> real"

record bsdf_inputs =
  base_color_in :: rgba
  metallic_in :: real
  roughness_in :: real

record material =
  use_nodes :: bool
  principled_bsdf :: "bsdf_inputs option"

record collection =
  col_objects :: "string list"
  col_children :: "string list"

record bl_object =
  ob_type :: string
  ob_data :: "string option"
  ob_location :: "real \<times> real \<times> real"

record mesh =
  me_materials :: "string list"

record scene =
  materials :: "(string \<times> material) list"
  collections :: "(string \<times> collection) list"
  objects :: "(string \<times> bl_object) list"
  meshes :: "(string \<times> mesh) list"
  scene_objects :: "string list"
  scene_children :: "string list"

definition modify :: "string \<Rightarrow> ('v \<Rightarrow> 'v) \<Rightarrow> (string \<times> 'v) list \<Rightarrow> (string \<times> 'v) list" where
  "modify k f xs = map (\<lambda>(k', v). if k' = k then (k', f v) else (k', v)) xs"

definition delete :: "string \<Rightarrow> (string \<times> 'v) list \<Rightarrow> (string \<times> 'v) list" where
  "delete k xs = filter (\<lambda>(k', v). k' \<noteq> k) xs"

text \<open>
  A new data-block gets the requested name when it is free and the name with the first
  free numeric suffix (\<open>.001\<close>, \<open>.002\<close>, ...) otherwise. Among \<open>length taken + 1\<close>
  candidates one is free, so the last case is never reached (\<open>unique_name_fresh\<close>).
\<close>

fun decimal :: "nat \<Rightarrow> string" where
  "decimal n = (if n < 10 then [''0123456789'' ! n] else decimal (n div 10) @ [''0123456789'' ! (n mod 10)])"

declare decimal.simps [simp del]

definition numbered :: "string \<Rightarrow> nat \<Rightarrow> string" where
  "numbered name k = name @ ''.'' @ replicate (3 - length (decimal k)) (CHR ''0'') @ decimal k"

definition unique_name :: "string list \<Rightarrow> string \<Rightarrow> string" where
  "unique_name taken name =
     (if name \<notin> set taken then name
      else case find (\<lambda>c. c \<notin> set taken) (map (numbered name) [1 ..< length taken + 2]) of
             Some c \<Rightarrow> c
           | None \<Rightarrow> name)"

definition materials_new :: "scene \<Rightarrow> string \<Rightarrow> scene \<times> string" where
  "materials_new s name =
     (let n = unique_name (map fst (materials s)) name
      in (s\<lparr>materials := materials s @ [(n, \<lparr>use_nodes = False, principled_bsdf = None\<rparr>)]\<rparr>, n))"




text \<open>
  Setting \<open>use_nodes\<close> gives a material its node tree with the default
  \<open>Principled BSDF\<close> node (a light gray).
\<close>

definition default_bsdf :: bsdf_inputs where
  "default_bsdf = \<lparr>base_color_in = (0.8, 0.8, 0.8, 1.0), metallic_in = 0.0, roughness_in = 0.5\<rparr>"

definition set_use_nodes :: "material \<Rightarrow> material" where
  "set_use_nodes m =
     m\<lparr>use_nodes := True,
       principled_bsdf := (case principled_bsdf m of None \<Rightarrow> Some default_bsdf | Some b \<Rightarrow> Some b)\<rparr>"



subsection \<open>hole\_builder\_utils.py\<close>

text \<open>
  \<open>get_or_create_material\<close>. \<open>base_color\<close> is \<open>None\<close> or a color; the result is the
  scene after the call and the material returned.
\<close>

definition get_or_create_material ::
  "scene \<Rightarrow> string \<Rightarrow> rgba option \<Rightarrow> real \<Rightarrow> real \<Rightarrow> scene \<times> string" where
  "get_or_create_material s name base_color metallic roughness =
     (case map_of (materials s) name of
        Some m \<Rightarrow> (s, name)
      | None \<Rightarrow>
          let (s1, mat) = materials_new s name;
              s2 = s1\<lparr>materials := modify mat set_use_nodes (materials s1)\<rparr>;
              bsdf = (case map_of (materials s2) mat of None \<Rightarrow> None | Some m \<Rightarrow> principled_bsdf m)
          in (case (bsdf, base_color) of
                (Some b, Some col) \<Rightarrow>
                  (s2\<lparr>materials := modify mat
                        (\<lambda>m. m\<lparr>principled_bsdf :=
                           Some \<lparr>base_color_in = col, metallic_in = metallic, roughness_in = roughness\<rparr>\<rparr>)
                        (materials s2)\<rparr>, mat)
              | _ \<Rightarrow> (s2, mat)))"






subsection \<open>build\_hole\_5.py\<close>







section \<open>Rotation drivers (build\_hole\_5.py, build\_eskdale\_theme.py)\<close>

definition FPS :: int where "FPS = 30"
definition REVOLUTION_SECONDS :: int where "REVOLUTION_SECONDS = 4"
definition REVOLUTION_FRAMES :: int where "REVOLUTION_FRAMES = FPS * REVOLUTION_SECONDS"

text \<open>
  The driver expression of the windmill hub, \<open>frame * (2 * 3.14159 / 120)\<close> after the
  f-string has put in \<open>REVOLUTION_FRAMES\<close>, as a function of the frame number.
\<close>

definition windmill_driver :: "int \<Rightarrow> real" where
  "windmill_driver frame = of_int frame * (2 * 3.14159 / of_int REVOLUTION_FRAMES)"

text \<open>The driver expression of the waterwheel, \<open>frame * (2 * 3.14159 / 180)\<close>.\<close>

definition waterwheel_driver :: "int \<Rightarrow> real" where
  "waterwheel_driver frame = of_int frame * (2 * 3.14159 / 180)"

text \<open>Two angles are the same modulo \<open>2 * pi\<close>.\<close>

definition same_angle :: "real \<Rightarrow> real \<Rightarrow> bool" where
  "same_angle a b = (\<exists>k::int. a - b = of_int k * (2 * pi))"

section \<open>Command relay (blender\_ws.py)\<close>

datatype json =
    JNull
  | JBool bool
  | JNumber real
  | JString string
  | JArray "json list"
  | JObject "(string \<times> json) list"

text \<open>
  A value inside an f-string: a string is put in as it is, any other value through Python's
  \<open>str\<close>, which is a parameter of the model.
\<close>

definition format_value :: "(json \<Rightarrow> string) \<Rightarrow> json \<Rightarrow> string" where
  "format_value py_str v = (case v of JString s \<Rightarrow> s | _ \<Rightarrow> py_str v)"

text \<open>
  \<open>send_command\<close>. The connection is a function from the message sent to what
  \<open>json.loads(ws.recv())\<close> gives: the parsed reply, or the exception of the connection, of
  the timeout or of the parser. \<open>msg_id\<close> is the timestamp string; a JSON object is the
  list of the items of the Python dict; \<open>params\<close> is \<open>None\<close> or a dict, and an empty
  dict is not sent. Calling \<open>.get\<close> on a reply that is not a dict is an
  \<open>AttributeError\<close>.
\<close>

definition command_message :: "string \<Rightarrow> string \<Rightarrow> (string \<times> json) list option \<Rightarrow> json" where
  "command_message msg_id tool params =
     (let msg = [(''id'', JString msg_id), (''tool'', JString tool)]
      in case params of
           Some p \<Rightarrow> if p \<noteq> [] then JObject (msg @ [(''params'', JObject p)]) else JObject msg
         | None \<Rightarrow> JObject msg)"

definition send_command ::
  "(json \<Rightarrow> string) \<Rightarrow> (json \<Rightarrow> error + json) \<Rightarrow> string \<Rightarrow> string \<Rightarrow> (string \<times> json) list option
     \<Rightarrow> error + json" where
  "send_command py_str ws msg_id tool params =
     (case ws (command_message msg_id tool params) of
        Inl e \<Rightarrow> Inl e
      | Inr result \<Rightarrow>
          (case result of
             JObject d \<Rightarrow>
               if map_of d ''status'' = Some (JString ''error'')
               then Inl (RuntimeError (''Blender error: '' @
                      format_value py_str (case map_of d ''error'' of
                                              Some e \<Rightarrow> e | None \<Rightarrow> JString ''unknown'')))
               else Inr (case map_of d ''data'' of Some v \<Rightarrow> v | None \<Rightarrow> result)
           | _ \<Rightarrow> Inl AttributeError))"

section \<open>Auxiliary definitions for the statements\<close>


text \<open>
  The vertex handles made by \<open>build_path_mesh\<close>: sample \<open>j\<close> of the centerline gets the
  left vertex \<open>2 * j\<close> and the right vertex \<open>2 * j + 1\<close>, and face \<open>k\<close> joins the
  vertices of the samples \<open>k\<close> and \<open>k + 1\<close>.
\<close>

definition quad :: "nat \<Rightarrow> nat list" where
  "quad k = [2 * k, 2 * k + 1, 2 * (k + 1) + 1, 2 * (k + 1)]"

definition left_ids :: "nat \<Rightarrow> nat list" where
  "left_ids n = map (\<lambda>j. 2 * j) [0 ..< n]"

definition right_ids :: "nat \<Rightarrow> nat list" where
  "right_ids n = map (\<lambda>j. 2 * j + 1) [0 ..< n]"

text \<open>Reading a decimal numeral back, to tell the numbered names apart.\<close>

definition digit_value :: "char \<Rightarrow> nat" where
  "digit_value c = of_char c - 48"

definition undecimal :: "string \<Rightarrow> nat" where
  "undecimal ds = foldl (\<lambda>a c. 10 * a + digit_value c) 0 ds"

text \<open>Concrete inputs: a scene without data-blocks, a scene with one material, two replies.\<close>

definition empty_scene :: scene where
  "empty_scene = \<lparr>materials = [], collections = [], objects = [], meshes = [],
                   scene_objects = [], scene_children = []\<rparr>"

definition water_scene :: scene where
  "water_scene = empty_scene\<lparr>materials :=
     [(''Water'', \<lparr>use_nodes = True,
                   principled_bsdf = Some \<lparr>base_color_in = (0.1, 0.3, 0.5, 0.8), metallic_in = 0.0,
                                            roughness_in = 0.1\<rparr>\<rparr>)]\<rparr>"

definition plain_str :: "json \<Rightarrow> string" where
  "plain_str v = ''?''"

definition array_reply :: "json \<Rightarrow> error + json" where
  "array_reply msg = Inr (JArray [])"

definition error_reply :: "json \<Rightarrow> error + json" where
  "error_reply msg = Inr (JObject [(''status'', JString ''error''), (''error'', JString ''no such tool'')])"

section \<open>Properties of the terrain cut\<close>

lemma cut_vertex_cases:
  assumes "cut_vertex c sl v = Inr (v', m)"
  shows "vx v' = vx v \<and> vy v' = vy v \<and> vz v' \<le> vz v \<and> (ellipse_dist c v \<ge> 1 \<longrightarrow> v' = v)"
  using assms
  by (auto simp: cut_vertex_def ellipse_dist_def Let_def power2_eq_square split: prod.splits if_splits)

lemma cut_loop_length:
  "cut_loop c sl vs = Inr (vs', n) \<Longrightarrow> length vs' = length vs"
  by (induction vs arbitrary: vs' n) (auto split: sum.splits prod.splits)

lemma cut_loop_nth:
  "cut_loop c sl vs = Inr (vs', n) \<Longrightarrow> i < length vs \<Longrightarrow>
   \<exists>m. cut_vertex c sl (vs ! i) = Inr (vs' ! i, m)"
proof (induction vs arbitrary: vs' n i)
  case Nil
  then show ?case by simp
next
  case (Cons v vs)
  from Cons.prems(1) obtain v' m ws k where
    step: "cut_vertex c sl v = Inr (v', m)" and
    rest: "cut_loop c sl vs = Inr (ws, k)" and
    out: "vs' = v' # ws"
    by (auto split: sum.splits prod.splits)
  show ?case
  proof (cases i)
    case 0
    with step out show ?thesis by simp
  next
    case (Suc j)
    with Cons.prems(2) have "j < length vs" by simp
    from Cons.IH [OF rest this] Suc out show ?thesis by simp
  qed
qed

lemma mesh_after_cut_length: "length (mesh_after_cut c vs) = length vs"
  by (auto simp: mesh_after_cut_def cut_mesh_def dest: cut_loop_length split: sum.splits)

lemma mesh_after_cut_nth:
  assumes "i < length vs"
  shows "mesh_after_cut c vs ! i = vs ! i \<or>
         (\<exists>sl m. cut_vertex c sl (vs ! i) = Inr (mesh_after_cut c vs ! i, m))"
proof (cases "cut_mesh c vs")
  case (Inl e)
  then show ?thesis by (simp add: mesh_after_cut_def)
next
  case (Inr r)
  obtain vs' n where r: "r = (vs', n)" by (cases r)
  from Inr r obtain sl where "cut_loop c sl vs = Inr (vs', n)"
    by (auto simp: cut_mesh_def split: sum.splits)
  from cut_loop_nth [OF this assms] obtain m where
    "cut_vertex c sl (vs ! i) = Inr (vs' ! i, m)" by blast
  moreover from Inr r have "mesh_after_cut c vs = vs'"
    by (simp add: mesh_after_cut_def)
  ultimately show ?thesis by blast
qed

text \<open>
  C2. For every vertex of the mesh passed to \<open>cut_mesh\<close>, and for all values of the
  center, radii and slope constants, the z coordinate after the operation is less than or
  equal to the z coordinate before it; the number of vertices does not change.
\<close>

theorem cut_mesh_only_lowers:
  "length (mesh_after_cut c vs) = length vs \<and>
   (\<forall>i < length vs. vz (mesh_after_cut c vs ! i) \<le> vz (vs ! i))"
proof (intro conjI allI impI)
  show "length (mesh_after_cut c vs) = length vs" by (rule mesh_after_cut_length)
next
  fix i assume "i < length vs"
  from mesh_after_cut_nth [OF this, of c]
  show "vz (mesh_after_cut c vs ! i) \<le> vz (vs ! i)"
    by (auto dest: cut_vertex_cases)
qed

theorem cut_mesh_only_lowers_witness:
  "vz (mesh_after_cut golf_constants [\<lparr>vx = 20.85, vy = 38.5, vz = 2\<rparr>] ! 0)
     \<le> vz ([\<lparr>vx = 20.85, vy = 38.5, vz = 2\<rparr>] ! 0)"
  using cut_mesh_only_lowers [of golf_constants "[\<lparr>vx = 20.85, vy = 38.5, vz = 2\<rparr>]"]
  by simp

text \<open>
  C9. \<open>cut_mesh\<close> never changes the x or y coordinate of a vertex, and a vertex whose
  normalized elliptical distance from the cut center is at least 1.0 keeps all three
  coordinates; only the z coordinate of vertices strictly inside the ellipse may change.
\<close>

theorem cut_mesh_frame:
  "length (mesh_after_cut c vs) = length vs \<and>
   (\<forall>i < length vs.
      vx (mesh_after_cut c vs ! i) = vx (vs ! i) \<and>
      vy (mesh_after_cut c vs ! i) = vy (vs ! i) \<and>
      (ellipse_dist c (vs ! i) \<ge> 1 \<longrightarrow> mesh_after_cut c vs ! i = vs ! i))"
proof (intro conjI allI impI)
  show "length (mesh_after_cut c vs) = length vs" by (rule mesh_after_cut_length)
next
  fix i assume "i < length vs"
  from mesh_after_cut_nth [OF this, of c]
  show "vx (mesh_after_cut c vs ! i) = vx (vs ! i)"
    by (auto dest: cut_vertex_cases)
next
  fix i assume "i < length vs"
  from mesh_after_cut_nth [OF this, of c]
  show "vy (mesh_after_cut c vs ! i) = vy (vs ! i)"
    by (auto dest: cut_vertex_cases)
next
  fix i assume "i < length vs" and "ellipse_dist c (vs ! i) \<ge> 1"
  with mesh_after_cut_nth [of i vs c]
  show "mesh_after_cut c vs ! i = vs ! i"
    by (auto dest: cut_vertex_cases)
qed


theorem cut_mesh_frame_witness:
  "ellipse_dist golf_constants \<lparr>vx = 100, vy = 38.5, vz = 2\<rparr> \<ge> 1 \<and>
   mesh_after_cut golf_constants [\<lparr>vx = 100, vy = 38.5, vz = 2\<rparr>] ! 0
     = [\<lparr>vx = 100, vy = 38.5, vz = 2\<rparr>] ! 0"
  using cut_mesh_frame [of golf_constants "[\<lparr>vx = 100, vy = 38.5, vz = 2\<rparr>]"]
  by (simp add: ellipse_dist_def golf_constants_def)

text \<open>
  \<open>cut_mesh\<close> returns whenever the radii are not zero and the two ends of the slope
  differ, as with the constants of the source file.
\<close>

lemma cut_vertex_returns:
  assumes "CUT_RX c \<noteq> 0" and "CUT_RY c \<noteq> 0" and "slope_len \<noteq> 0"
  shows "\<exists>r. cut_vertex c (slope_dx, slope_dy, slope_len) v = Inr r"
  using assms by (auto simp: cut_vertex_def Let_def)

lemma cut_loop_returns:
  assumes "CUT_RX c \<noteq> 0" and "CUT_RY c \<noteq> 0" and "slope_len \<noteq> 0"
  shows "\<exists>r. cut_loop c (slope_dx, slope_dy, slope_len) vs = Inr r"
proof (induction vs)
  case Nil
  show ?case by simp
next
  case (Cons v vs)
  from cut_vertex_returns [OF assms] obtain r where
    "cut_vertex c (slope_dx, slope_dy, slope_len) v = Inr r" by blast
  with Cons show ?case by (auto split: prod.splits)
qed

lemma cut_mesh_returns:
  assumes "CUT_RX c \<noteq> 0" and "CUT_RY c \<noteq> 0" and "GOLF_HIGH c \<noteq> GOLF_LOW c"
  shows "\<exists>vs' n. cut_mesh c vs = Inr (vs', n)"
proof -
  define dx where "dx = fst (GOLF_LOW c) - fst (GOLF_HIGH c)"
  define dy where "dy = snd (GOLF_LOW c) - snd (GOLF_HIGH c)"
  from assms(3) have "dx \<noteq> 0 \<or> dy \<noteq> 0"
    by (auto simp: dx_def dy_def prod_eq_iff)
  then have "dx * dx + dy * dy \<noteq> 0"
    by (simp add: sum_squares_eq_zero_iff)
  then have len: "sqrt (dx * dx + dy * dy) \<noteq> 0" by simp
  then have "slope_direction c
      = Inr (dx / sqrt (dx * dx + dy * dy), dy / sqrt (dx * dx + dy * dy), sqrt (dx * dx + dy * dy))"
    by (simp add: slope_direction_def Let_def dx_def dy_def)
  moreover from cut_loop_returns [OF assms(1,2) len] obtain r where
    "cut_loop c (dx / sqrt (dx * dx + dy * dy), dy / sqrt (dx * dx + dy * dy),
        sqrt (dx * dx + dy * dy)) vs = Inr r" by blast
  ultimately show ?thesis by (cases r) (simp add: cut_mesh_def)
qed










section \<open>Properties of the spline and the ribbon mesh\<close>

lemma catmull_rom_at_0: "catmull_rom p0 p1 p2 p3 0 = p1"
  by (simp add: catmull_rom_def)

lemma chain_point_at_0: "chain_point pts i 0 = pts ! i"
  by (simp add: chain_point_def catmull_rom_at_0)

lemma catmull_rom_chain_last:
  assumes "2 \<le> length points"
  shows "last (catmull_rom_chain points n) = last points"
proof -
  from assms have ne: "points \<noteq> []" by auto
  from assms obtain k where k: "length points = Suc k" by (cases "length points") auto
  have "(hd points # points @ [last points]) ! length points = points ! k"
    by (simp add: k nth_append)
  also have "\<dots> = last points" using ne k by (simp add: last_conv_nth)
  finally have "(hd points # points @ [last points]) ! length points = last points" .
  with assms show ?thesis
    by (simp add: catmull_rom_chain_def Let_def)
qed

lemma catmull_rom_chain_first:
  assumes "2 \<le> length points" and "0 < n"
  shows "hd (catmull_rom_chain points n) = hd points"
proof -
  define pts where "pts = [hd points] @ points @ [last points]"
  from assms have ne: "points \<noteq> []" by auto
  have len: "length pts - 2 = length points" by (simp add: pts_def)
  from assms have spans: "[1 ..< length points] = 1 # [Suc 1 ..< length points]"
    by (simp add: upt_conv_Cons)
  from assms have segs: "[0 ..< nat n] = 0 # [1 ..< nat n]"
    by (simp add: upt_conv_Cons)
  have "pts ! 1 = hd points" using ne by (simp add: pts_def hd_conv_nth nth_append)
  then have "chain_point pts 1 0 = hd points" by (simp add: chain_point_at_0)
  with assms spans segs len show ?thesis
    unfolding catmull_rom_chain_def Let_def pts_def [symmetric]
    by simp
qed

text \<open>
  C1, as the code has it. For every list of at least two control points the list returned
  by \<open>catmull_rom_chain\<close> is not empty and ends exactly at the last control point; when
  \<open>segments_per_span\<close> is at least 1 it starts exactly at the first control point.
\<close>

theorem catmull_rom_chain_endpoints:
  assumes "2 \<le> length points"
  shows "catmull_rom_chain points segments_per_span \<noteq> [] \<and>
         last (catmull_rom_chain points segments_per_span) = last points \<and>
         (0 < segments_per_span \<longrightarrow> hd (catmull_rom_chain points segments_per_span) = hd points)"
proof -
  from assms have "catmull_rom_chain points segments_per_span \<noteq> []"
    by (simp add: catmull_rom_chain_def Let_def)
  with assms show ?thesis
    by (simp add: catmull_rom_chain_last catmull_rom_chain_first)
qed

theorem catmull_rom_chain_endpoints_witness:
  "2 \<le> length [\<lparr>vx = 0, vy = 0, vz = 0\<rparr>, \<lparr>vx = 1, vy = 2, vz = 3\<rparr>] \<and> (0::int) < 12 \<and>
   last (catmull_rom_chain [\<lparr>vx = 0, vy = 0, vz = 0\<rparr>, \<lparr>vx = 1, vy = 2, vz = 3\<rparr>] 12)
     = \<lparr>vx = 1, vy = 2, vz = 3\<rparr> \<and>
   hd (catmull_rom_chain [\<lparr>vx = 0, vy = 0, vz = 0\<rparr>, \<lparr>vx = 1, vy = 2, vz = 3\<rparr>] 12)
     = \<lparr>vx = 0, vy = 0, vz = 0\<rparr>"
  using catmull_rom_chain_endpoints [of "[\<lparr>vx = 0, vy = 0, vz = 0\<rparr>, \<lparr>vx = 1, vy = 2, vz = 3\<rparr>]" 12]
  by simp

text \<open>
  C1 as stated fails for \<open>segments_per_span = 0\<close>: no span is sampled, the result is the
  last control point alone, and the list does not start at the first control point.
\<close>

theorem catmull_rom_chain_start_counterexample:
  "2 \<le> length [\<lparr>vx = 0, vy = 0, vz = 0\<rparr>, \<lparr>vx = 1, vy = 0, vz = 0\<rparr>] \<and>
   hd (catmull_rom_chain [\<lparr>vx = 0, vy = 0, vz = 0\<rparr>, \<lparr>vx = 1, vy = 0, vz = 0\<rparr>] 0)
     \<noteq> hd [\<lparr>vx = 0, vy = 0, vz = 0\<rparr>, \<lparr>vx = 1, vy = 0, vz = 0\<rparr>]"
  by (simp add: catmull_rom_chain_def)


lemma path_tangent_ok:
  "2 \<le> length cl \<Longrightarrow> i < length cl \<Longrightarrow> \<exists>t. path_tangent cl i = Inr t"
  by (auto simp: path_tangent_def)

lemma path_verts_loop_ids:
  assumes "2 \<le> length cl" and "n \<le> length cl" and "k \<le> n" and "length (bm_verts bm) = 2 * k"
  shows "\<exists>bm'. path_verts_loop cl hw [k ..< n] (bm, left_ids k, right_ids k)
                 = Inr (bm', left_ids n, right_ids n) \<and>
               bm_faces bm' = bm_faces bm"
  using assms(3,4)
proof (induction "n - k" arbitrary: k bm)
  case 0
  then show ?case by simp
next
  case (Suc d)
  then have kn: "k < n" by simp
  with assms(2) have "k < length cl" by simp
  from path_tangent_ok [OF assms(1) this] obtain t where t: "path_tangent cl k = Inr t" ..
  define pt where "pt = cl ! k"
  define perp where "perp = normalized \<lparr> vx = - vy t, vy = vx t, vz = 0 \<rparr>"
  define bm2 where
    "bm2 = bm\<lparr>bm_verts := (bm_verts bm @ [(vadd pt (vscale perp hw))\<lparr>vz := vz pt\<rparr>])
                               @ [(vsub pt (vscale perp hw))\<lparr>vz := vz pt\<rparr>]\<rparr>"
  have step: "path_verts_loop cl hw [k ..< n] (bm, left_ids k, right_ids k)
        = path_verts_loop cl hw [Suc k ..< n] (bm2, left_ids (Suc k), right_ids (Suc k))"
    using kn t Suc.prems(2)
    by (simp add: upt_conv_Cons Let_def bm_verts_new_def left_ids_def right_ids_def
        bm2_def pt_def perp_def)
  have "d = n - Suc k" using Suc.hyps(2) by simp
  moreover have "Suc k \<le> n" using kn by simp
  moreover have "length (bm_verts bm2) = 2 * Suc k" using Suc.prems(2) by (simp add: bm2_def)
  ultimately obtain bm' where
    "path_verts_loop cl hw [Suc k ..< n] (bm2, left_ids (Suc k), right_ids (Suc k))
       = Inr (bm', left_ids n, right_ids n)" and "bm_faces bm' = bm_faces bm2"
    using Suc.hyps(1) by blast
  with step show ?case by (auto simp: bm2_def)
qed

lemma quad_fresh: "j < k \<Longrightarrow> set (quad j) \<noteq> set (quad k)"
proof
  assume "j < k" and eq: "set (quad j) = set (quad k)"
  have "2 * (k + 1) + 1 \<in> set (quad k)" by (simp add: quad_def)
  with eq have "2 * (k + 1) + 1 \<in> set (quad j)" by simp
  with \<open>j < k\<close> show False by (auto simp: quad_def)
qed

lemma bm_faces_new_quad:
  assumes "bm_faces bm = map quad [0 ..< k]"
  shows "bm_faces_new bm (quad k) = Inr (bm\<lparr>bm_faces := map quad [0 ..< Suc k]\<rparr>)"
proof -
  have "\<not> list_ex (\<lambda>f. set f = set (quad k)) (map quad [0 ..< k])"
    using quad_fresh by (auto simp: list_ex_iff)
  moreover have "distinct (quad k)" by (simp add: quad_def)
  moreover have "length (quad k) = 4" by (simp add: quad_def)
  ultimately show ?thesis using assms by (simp add: bm_faces_new_def)
qed

lemma path_faces_loop_quads:
  assumes "n < m" and "k \<le> n" and "bm_faces bm = map quad [0 ..< k]"
  shows "\<exists>bm'. path_faces_loop (left_ids m) (right_ids m) [k ..< n] bm = Inr bm' \<and>
               bm_faces bm' = map quad [0 ..< n]"
  using assms(2,3)
proof (induction "n - k" arbitrary: k bm)
  case 0
  then show ?case by simp
next
  case (Suc d)
  then have kn: "k < n" by simp
  with assms(1) have km: "k < m" "Suc k < m" by simp_all
  then have ids: "[left_ids m ! k, right_ids m ! k, right_ids m ! Suc k, left_ids m ! Suc k] = quad k"
    by (simp add: left_ids_def right_ids_def quad_def)
  define bm1 where "bm1 = bm\<lparr>bm_faces := map quad [0 ..< Suc k]\<rparr>"
  have step: "path_faces_loop (left_ids m) (right_ids m) [k ..< n] bm
        = path_faces_loop (left_ids m) (right_ids m) [Suc k ..< n] bm1"
    using kn bm_faces_new_quad [OF Suc.prems(2)]
    by (simp add: upt_conv_Cons ids bm1_def)
  have "d = n - Suc k" using Suc.hyps(2) by simp
  moreover have "Suc k \<le> n" using kn by simp
  moreover have "bm_faces bm1 = map quad [0 ..< Suc k]" by (simp add: bm1_def)
  ultimately show ?case using Suc.hyps(1) step by metis
qed

lemma build_path_mesh_faces:
  assumes "2 \<le> length centerline"
  shows "\<exists>m. build_path_mesh centerline width = Inr m \<and>
             bm_faces m = map quad [0 ..< length centerline - 1]"
proof -
  have "length (bm_verts bmesh_new) = 2 * 0" by (simp add: bmesh_new_def)
  from path_verts_loop_ids [OF assms le_refl le0 this, of "width / 2"]
  obtain bm1 where
    verts: "path_verts_loop centerline (width / 2) [0 ..< length centerline] (bmesh_new, [], [])
              = Inr (bm1, left_ids (length centerline), right_ids (length centerline))" and
    nofaces: "bm_faces bm1 = []"
    by (auto simp: left_ids_def right_ids_def bmesh_new_def)
  from assms have "length centerline - 1 < length centerline" by simp
  moreover have "bm_faces bm1 = map quad [0 ..< 0]" using nofaces by simp
  ultimately obtain bm2 where
    "path_faces_loop (left_ids (length centerline)) (right_ids (length centerline))
       [0 ..< length centerline - 1] bm1 = Inr bm2" and
    "bm_faces bm2 = map quad [0 ..< length centerline - 1]"
    using path_faces_loop_quads [of "length centerline - 1" "length centerline" 0 bm1] by auto
  with verts show ?thesis by (simp add: build_path_mesh_def Let_def)
qed

text \<open>
  C3. For every centerline of at least two points whose consecutive points are distinct,
  \<open>build_path_mesh\<close> returns a mesh with exactly \<open>len(centerline) - 1\<close> faces, each of
  four vertices. (\<open>build_path_mesh_faces\<close> shows that the second condition is not needed:
  every sample gets two new vertices, so no face repeats a vertex or an earlier face.)
\<close>

theorem build_path_mesh_face_count:
  assumes "2 \<le> length centerline" and "distinct_adj centerline"
  shows "\<exists>m. build_path_mesh centerline width = Inr m \<and>
             length (bm_faces m) = length centerline - 1 \<and>
             (\<forall>f \<in> set (bm_faces m). length f = 4)"
proof -
  from build_path_mesh_faces [OF assms(1)] obtain m where
    m: "build_path_mesh centerline width = Inr m"
       "bm_faces m = map quad [0 ..< length centerline - 1]" by blast
  then have "length (bm_faces m) = length centerline - 1" by simp
  moreover from m have "\<forall>f \<in> set (bm_faces m). length f = 4" by (auto simp: quad_def)
  ultimately show ?thesis using m by blast
qed

theorem build_path_mesh_face_count_witness:
  "2 \<le> length [\<lparr>vx = 0, vy = 0, vz = 0\<rparr>, \<lparr>vx = 1, vy = 0, vz = 0\<rparr>, \<lparr>vx = 2, vy = 0, vz = 0\<rparr>] \<and>
   distinct_adj [\<lparr>vx = 0, vy = 0, vz = 0\<rparr>, \<lparr>vx = 1, vy = 0, vz = 0\<rparr>, \<lparr>vx = 2, vy = 0, vz = 0\<rparr>] \<and>
   (\<exists>m. build_path_mesh [\<lparr>vx = 0, vy = 0, vz = 0\<rparr>, \<lparr>vx = 1, vy = 0, vz = 0\<rparr>, \<lparr>vx = 2, vy = 0, vz = 0\<rparr>] 1
          = Inr m \<and> length (bm_faces m) = 2)"
  using build_path_mesh_face_count
    [of "[\<lparr>vx = 0, vy = 0, vz = 0\<rparr>, \<lparr>vx = 1, vy = 0, vz = 0\<rparr>, \<lparr>vx = 2, vy = 0, vz = 0\<rparr>]" 1]
  by auto

section \<open>Properties of the scene helpers\<close>

text \<open>The name given to a new data-block is not in use.\<close>

lemma digit_value_nth:
  assumes "n < 10"
  shows "digit_value (''0123456789'' ! n) = n"
proof -
  from assms have "n = 0 \<or> n = 1 \<or> n = 2 \<or> n = 3 \<or> n = 4 \<or> n = 5 \<or> n = 6 \<or> n = 7 \<or> n = 8 \<or> n = 9"
    by arith
  then show ?thesis
    by (elim disjE) (simp_all add: digit_value_def)
qed

lemma undecimal_snoc: "undecimal (ds @ [c]) = 10 * undecimal ds + digit_value c"
  by (simp add: undecimal_def)

lemma undecimal_decimal: "undecimal (decimal n) = n"
proof (induction n rule: decimal.induct)
  case (1 n)
  show ?case
  proof (cases "n < 10")
    case True
    then show ?thesis
      by (subst decimal.simps) (simp add: undecimal_def digit_value_nth)
  next
    case False
    with 1 have "undecimal (decimal (n div 10)) = n div 10" by simp
    with False show ?thesis
      by (subst decimal.simps) (simp add: undecimal_snoc digit_value_nth)
  qed
qed

lemma undecimal_zeros: "undecimal (replicate m (CHR ''0'') @ ds) = undecimal ds"
proof -
  have "foldl (\<lambda>a c. 10 * a + digit_value c) 0 (replicate m (CHR ''0'')) = 0"
    by (induction m) (simp_all add: digit_value_def)
  then show ?thesis by (simp add: undecimal_def)
qed

lemma numbered_inj:
  assumes "numbered name j = numbered name k"
  shows "j = k"
proof -
  let ?pad = "\<lambda>n. replicate (3 - length (decimal n)) (CHR ''0'') @ decimal n"
  from assms have "name @ ''.'' @ ?pad j = name @ ''.'' @ ?pad k"
    by (simp only: numbered_def)
  then have "?pad j = ?pad k"
    by (simp only: same_append_eq)
  then have "undecimal (?pad j) = undecimal (?pad k)"
    by (rule arg_cong)
  then show "j = k"
    by (simp only: undecimal_zeros undecimal_decimal)
qed

lemma unique_name_fresh: "unique_name taken name \<notin> set taken"
proof (cases "name \<in> set taken")
  case False
  then show ?thesis by (simp add: unique_name_def)
next
  case True
  define cands where "cands = map (numbered name) [1 ..< length taken + 2]"
  have "inj_on (numbered name) (set [1 ..< length taken + 2])"
    by (rule inj_onI) (rule numbered_inj)
  then have "distinct cands"
    unfolding cands_def by (simp only: distinct_map distinct_upt simp_thms)
  then have "card (set cands) = length cands"
    by (rule distinct_card)
  moreover have "length cands = length taken + 1"
    by (simp add: cands_def del: upt_Suc)
  ultimately have card: "card (set cands) = length taken + 1"
    by (simp only:)
  have ex: "\<exists>c. c \<in> set cands \<and> c \<notin> set taken"
  proof (rule ccontr)
    assume "\<not> (\<exists>c. c \<in> set cands \<and> c \<notin> set taken)"
    then have "set cands \<subseteq> set taken" by blast
    then have "card (set cands) \<le> card (set taken)" by (simp add: card_mono)
    also have "\<dots> \<le> length taken" by (rule card_length)
    finally show False using card by simp
  qed
  then have "find (\<lambda>c. c \<notin> set taken) cands \<noteq> None"
    unfolding find_None_iff by blast
  then obtain c where c: "find (\<lambda>c. c \<notin> set taken) cands = Some c"
    by blast
  then have "c \<notin> set taken"
    unfolding find_Some_iff by blast
  moreover from True c have "unique_name taken name = c"
    by (simp add: unique_name_def cands_def del: upt_Suc)
  ultimately show ?thesis by simp
qed





lemma map_fst_delete: "map fst (delete k xs) = filter (\<lambda>k'. k' \<noteq> k) (map fst xs)"
  by (induction xs) (auto simp: delete_def)









text \<open>
  C10. When a material of the requested name exists, \<open>get_or_create_material\<close> returns
  it and changes nothing in the scene, whatever \<open>base_color\<close>, \<open>metallic\<close> and
  \<open>roughness\<close> are: the material found under the name afterwards is the one that was
  there before.
\<close>

theorem get_or_create_material_existing:
  assumes "map_of (materials s) name = Some m"
  shows "get_or_create_material s name base_color metallic roughness = (s, name) \<and>
         map_of (materials (fst (get_or_create_material s name base_color metallic roughness)))
           (snd (get_or_create_material s name base_color metallic roughness)) = Some m"
  using assms by (simp add: get_or_create_material_def)

theorem get_or_create_material_existing_witness:
  "map_of (materials water_scene) ''Water''
     = Some \<lparr>use_nodes = True,
             principled_bsdf = Some \<lparr>base_color_in = (0.1, 0.3, 0.5, 0.8), metallic_in = 0.0,
                                      roughness_in = 0.1\<rparr>\<rparr> \<and>
   get_or_create_material water_scene ''Water'' (Some (1, 0, 0, 1)) 1 0.9 = (water_scene, ''Water'')"
  using get_or_create_material_existing [of water_scene "''Water''" _ "Some (1, 0, 0, 1)" 1 "0.9"]
  by (simp add: water_scene_def empty_scene_def)
















section \<open>Properties of the rotation drivers\<close>

lemma sum14:
  fixes f :: "nat \<Rightarrow> real"
  shows "(\<Sum>m<14. f m) = f 0 + f 1 + f 2 + f 3 + f 4 + f 5 + f 6 + f 7 + f 8 + f 9 + f 10 + f 11 + f 12 + f 13"
  by (simp add: lessThan_nat_numeral lessThan_Suc)

lemma cos_taylor14:
  fixes x :: real
  shows "(\<Sum>m<14. cos_coeff m * x ^ m) =
     1 - x^2 / 2 + x^4 / 24 - x^6 / 720 + x^8 / 40320 - x^10 / 3628800 + x^12 / 479001600"
  unfolding sum14
  by (simp add: cos_coeff_def fact_numeral)

lemma cos_remainder14:
  fixes x t :: real
  assumes "0 < x"
  shows "- (x ^ 14 / 87178291200) \<le> (cos t / fact 14) * x ^ 14"
proof -
  have "- 1 \<le> cos t" by simp
  moreover have "0 \<le> x ^ 14 / fact 14" using assms by simp
  ultimately have "- 1 * (x ^ 14 / fact 14) \<le> cos t * (x ^ 14 / fact 14)"
    by (rule mult_right_mono)
  then show ?thesis by (simp add: fact_numeral)
qed

lemma cos_lower14:
  fixes x :: real
  assumes "0 < x"
  shows "1 - x^2 / 2 + x^4 / 24 - x^6 / 720 + x^8 / 40320 - x^10 / 3628800 + x^12 / 479001600
           - x ^ 14 / 87178291200 \<le> cos x"
proof -
  from Maclaurin_cos_expansion2 [OF assms, of 14] obtain t where
    "cos x = (\<Sum>m<14. cos_coeff m * x ^ m) + (cos (t + 1/2 * real 14 * pi) / fact 14) * x ^ 14"
    by auto
  with cos_remainder14 [OF assms, of "t + 1/2 * real 14 * pi"] show ?thesis
    unfolding cos_taylor14 by linarith
qed

lemma cos_half_314159_pos: "0 < cos (314159 / 200000 :: real)"
proof -
  define x :: real where "x = 314159 / 200000"
  have "0 < 1 - x^2 / 2 + x^4 / 24 - x^6 / 720 + x^8 / 40320 - x^10 / 3628800 + x^12 / 479001600
           - x ^ 14 / 87178291200"
    unfolding x_def by (simp add: power_divide)
  also have "\<dots> \<le> cos x"
    by (rule cos_lower14) (simp add: x_def)
  finally show ?thesis by (simp add: x_def)
qed

lemma pi_gt_314159: "314159 / 100000 < pi"
proof (rule ccontr)
  assume "\<not> 314159 / 100000 < pi"
  then have le: "pi / 2 \<le> 314159 / 200000" by simp
  have "(314159 / 200000 :: real) \<le> pi" using pi_ge_two by linarith
  with le have "cos (314159 / 200000 :: real) \<le> cos (pi / 2)"
    by (intro cos_monotone_0_pi_le) simp_all
  with cos_half_314159_pos show False by simp
qed

lemma not_same_angle_628318:
  assumes "a - b = 628318 / 100000"
  shows "\<not> same_angle a b"
proof
  assume "same_angle a b"
  then obtain k :: int where k: "a - b = of_int k * (2 * pi)"
    by (auto simp: same_angle_def)
  show False
  proof (cases "k \<le> 0")
    case True
    then have "of_int k * (2 * pi) \<le> 0"
      by (simp add: mult_le_0_iff)
    with k assms show False by simp
  next
    case False
    then have "1 \<le> (of_int k :: real)" by simp
    then have "1 * (2 * pi) \<le> of_int k * (2 * pi)"
      by (rule mult_right_mono) simp
    with k assms pi_gt_314159 show False by simp
  qed
qed

text \<open>
  C5 does not hold for the code: the driver expressions use the constant \<open>3.14159\<close>, so
  one revolution period advances the angle by \<open>6.28318\<close>, which is less than \<open>2 * pi\<close>.
  For every frame \<open>F\<close> the angles at \<open>F\<close> and at \<open>F\<close> plus the period are not the
  same modulo \<open>2 * pi\<close>.
\<close>

theorem driver_not_periodic:
  "\<not> same_angle (windmill_driver (F + REVOLUTION_FRAMES)) (windmill_driver F) \<and>
   \<not> same_angle (waterwheel_driver (F + 180)) (waterwheel_driver F)"
proof
  have "windmill_driver (F + REVOLUTION_FRAMES) - windmill_driver F = 628318 / 100000"
    by (simp add: windmill_driver_def REVOLUTION_FRAMES_def FPS_def REVOLUTION_SECONDS_def
        algebra_simps)
  then show "\<not> same_angle (windmill_driver (F + REVOLUTION_FRAMES)) (windmill_driver F)"
    by (rule not_same_angle_628318)
next
  have "waterwheel_driver (F + 180) - waterwheel_driver F = 628318 / 100000"
    by (simp add: waterwheel_driver_def algebra_simps)
  then show "\<not> same_angle (waterwheel_driver (F + 180)) (waterwheel_driver F)"
    by (rule not_same_angle_628318)
qed

section \<open>Properties of the command relay\<close>

text \<open>
  C7, as the code has it. When the reply parses to a JSON object, \<open>send_command\<close> raises
  if and only if the field \<open>status\<close> of the reply is the string \<open>error\<close>; the message
  of the error is \<open>Blender error: \<close> followed by the \<open>error\<close> field of the reply
  (\<open>unknown\<close> when there is none); any other object reply is answered with its \<open>data\<close>
  field, or with the whole reply when it has none.
\<close>

theorem send_command_object_reply:
  assumes "ws (command_message msg_id tool params) = Inr (JObject d)"
  shows "((\<exists>e. send_command py_str ws msg_id tool params = Inl e)
            \<longleftrightarrow> map_of d ''status'' = Some (JString ''error'')) \<and>
         (map_of d ''status'' = Some (JString ''error'') \<longrightarrow>
            send_command py_str ws msg_id tool params
              = Inl (RuntimeError (''Blender error: '' @
                  (case map_of d ''error'' of
                     None \<Rightarrow> ''unknown''
                   | Some (JString e) \<Rightarrow> e
                   | Some v \<Rightarrow> py_str v)))) \<and>
         (map_of d ''status'' \<noteq> Some (JString ''error'') \<longrightarrow>
            send_command py_str ws msg_id tool params
              = Inr (case map_of d ''data'' of Some v \<Rightarrow> v | None \<Rightarrow> JObject d))"
  using assms
  by (auto simp: send_command_def format_value_def split: option.splits json.splits)

theorem send_command_object_reply_witness:
  "error_reply (command_message ''1'' ''list_tools'' None)
     = Inr (JObject [(''status'', JString ''error''), (''error'', JString ''no such tool'')]) \<and>
   send_command plain_str error_reply ''1'' ''list_tools'' None
     = Inl (RuntimeError ''Blender error: no such tool'')"
  using send_command_object_reply
    [of error_reply "''1''" "''list_tools''" None
        "[(''status'', JString ''error''), (''error'', JString ''no such tool'')]" plain_str]
  by (simp add: error_reply_def)

text \<open>
  C7 as stated fails for a reply that is valid JSON but not an object: an array has no
  \<open>status\<close> field, and \<open>send_command\<close> raises \<open>AttributeError\<close>.
\<close>

theorem send_command_counterexample:
  "array_reply (command_message ''1'' ''list_tools'' None) = Inr (JArray []) \<and>
   send_command plain_str array_reply ''1'' ''list_tools'' None = Inl AttributeError"
  by (simp add: send_command_def array_reply_def)

end
